theory Spec2Isabelle
  imports Main "HOL-Library.Word"
begin

unbundle bit_operations_syntax

section \<open>Bytes and little-endian integers (encoding/binary)\<close>

type_synonym byte = "8 word"
type_synonym uint64 = "64 word"

text \<open>
  \<^verbatim>\<open>binary.LittleEndian.PutUint64(b, v)\<close> writes \<^verbatim>\<open>b[k] = byte(v >> (8*k))\<close> for
  \<^verbatim>\<open>k = 0..7\<close>; \<^verbatim>\<open>binary.LittleEndian.Uint64(b)\<close> reads
  \<^verbatim>\<open>uint64(b[0]) | uint64(b[1])<<8 | ... | uint64(b[7])<<56\<close> and panics when the slice
  has fewer than 8 bytes.
\<close>

definition PutUint64 :: "uint64 \<Rightarrow> byte list" where
  "PutUint64 v =
     [ucast v, ucast (drop_bit 8 v), ucast (drop_bit 16 v), ucast (drop_bit 24 v),
      ucast (drop_bit 32 v), ucast (drop_bit 40 v), ucast (drop_bit 48 v), ucast (drop_bit 56 v)]"

fun Uint64 :: "byte list \<Rightarrow> uint64 option" where
  "Uint64 (b0 # b1 # b2 # b3 # b4 # b5 # b6 # b7 # rest) =
     Some (ucast b0 OR push_bit 8 (ucast b1) OR push_bit 16 (ucast b2) OR push_bit 24 (ucast b3)
           OR push_bit 32 (ucast b4) OR push_bit 40 (ucast b5) OR push_bit 48 (ucast b6)
           OR push_bit 56 (ucast b7))"
| "Uint64 bs = None"

text \<open>A slice expression \<^verbatim>\<open>xs[lo:hi]\<close>; Go panics unless \<^verbatim>\<open>lo <= hi <= len(xs)\<close>.\<close>

definition slice :: "'a list \<Rightarrow> nat \<Rightarrow> nat \<Rightarrow> 'a list option" where
  "slice xs lo hi = (if lo \<le> hi \<and> hi \<le> length xs then Some (take (hi - lo) (drop lo xs)) else None)"

section \<open>SHA-1 and HMAC (crypto/sha1, crypto/hmac)\<close>

text \<open>
  The repository signs with Go's standard library. The library is modelled after RFC 3174
  and RFC 2104. The 32-bit words of the compression function are integers in
  \<open>[0, 2^32)\<close> with the wrap-around written out, so that the kernel can evaluate a digest.
\<close>

type_synonym u32 = int
type_synonym sha1_state = "u32 \<times> u32 \<times> u32 \<times> u32 \<times> u32"

definition add32 :: "u32 \<Rightarrow> u32 \<Rightarrow> u32" where
  "add32 x y = (x + y) mod 4294967296"

definition rotl32 :: "nat \<Rightarrow> u32 \<Rightarrow> u32" where
  "rotl32 n x = (x * 2 ^ n) mod 4294967296 + x div 2 ^ (32 - n)"

definition not32 :: "u32 \<Rightarrow> u32" where
  "not32 x = x XOR 4294967295"

fun be_u32 :: "int list \<Rightarrow> u32" where
  "be_u32 [b0, b1, b2, b3] = b0 * 16777216 + b1 * 65536 + b2 * 256 + b3"
| "be_u32 bs = 0"

definition u32_be :: "u32 \<Rightarrow> int list" where
  "u32_be w = [w div 16777216 mod 256, w div 65536 mod 256, w div 256 mod 256, w mod 256]"

definition u64_be :: "int \<Rightarrow> int list" where
  "u64_be w = u32_be (w div 4294967296 mod 4294967296) @ u32_be (w mod 4294967296)"

fun chunks :: "nat \<Rightarrow> nat \<Rightarrow> 'a list \<Rightarrow> 'a list list" where
  "chunks 0 n xs = []"
| "chunks (Suc k) n xs = take n xs # chunks k n (drop n xs)"

definition sha1_pad :: "int list \<Rightarrow> int list" where
  "sha1_pad m =
     m @ [128] @ replicate ((119 - length m mod 64) mod 64) 0 @ u64_be (8 * int (length m))"

definition sha1_f :: "nat \<Rightarrow> u32 \<Rightarrow> u32 \<Rightarrow> u32 \<Rightarrow> u32" where
  "sha1_f t b c d =
     (if t < 20 then (b AND c) OR (not32 b AND d)
      else if t < 40 then b XOR c XOR d
      else if t < 60 then (b AND c) OR (b AND d) OR (c AND d)
      else b XOR c XOR d)"

definition sha1_k :: "nat \<Rightarrow> u32" where
  "sha1_k t =
     (if t < 20 then 0x5A827999
      else if t < 40 then 0x6ED9EBA1
      else if t < 60 then 0x8F1BBCDC
      else 0xCA62C1D6)"

fun sha1_round :: "nat \<Rightarrow> u32 \<Rightarrow> sha1_state \<Rightarrow> sha1_state" where
  "sha1_round t wt (a, b, c, d, e) =
     (add32 (add32 (add32 (add32 (rotl32 5 a) (sha1_f t b c d)) e) wt) (sha1_k t),
      a, rotl32 30 b, c, d)"

text \<open>The message schedule is kept as a sliding window of sixteen words.\<close>

fun sha1_sched :: "u32 list \<Rightarrow> u32 list" where
  "sha1_sched [w0, w1, w2, w3, w4, w5, w6, w7, w8, w9, w10, w11, w12, w13, w14, w15] =
     [w1, w2, w3, w4, w5, w6, w7, w8, w9, w10, w11, w12, w13, w14, w15,
      rotl32 1 (w13 XOR w8 XOR w2 XOR w0)]"
| "sha1_sched w = w"

fun sha1_rounds :: "nat \<Rightarrow> nat \<Rightarrow> u32 list \<Rightarrow> sha1_state \<Rightarrow> sha1_state" where
  "sha1_rounds 0 t w s = s"
| "sha1_rounds (Suc n) t w s = sha1_rounds n (Suc t) (sha1_sched w) (sha1_round t (hd w) s)"

fun sha1_add :: "sha1_state \<Rightarrow> sha1_state \<Rightarrow> sha1_state" where
  "sha1_add (h0, h1, h2, h3, h4) (a, b, c, d, e) =
     (add32 h0 a, add32 h1 b, add32 h2 c, add32 h3 d, add32 h4 e)"

definition sha1_block :: "sha1_state \<Rightarrow> int list \<Rightarrow> sha1_state" where
  "sha1_block h blk = sha1_add h (sha1_rounds 80 0 (map be_u32 (chunks 16 4 blk)) h)"

fun sha1_out :: "sha1_state \<Rightarrow> int list" where
  "sha1_out (a, b, c, d, e) = u32_be a @ u32_be b @ u32_be c @ u32_be d @ u32_be e"

definition sha1_init :: sha1_state where
  "sha1_init = (0x67452301, 0xEFCDAB89, 0x98BADCFE, 0x10325476, 0xC3D2E1F0)"

definition sha1 :: "int list \<Rightarrow> int list" where
  "sha1 m = sha1_out (foldl sha1_block sha1_init
                        (chunks (length (sha1_pad m) div 64) 64 (sha1_pad m)))"

text \<open>
  \<^verbatim>\<open>hmac.New(sha1.New, key)\<close>: a key longer than the 64-byte block is hashed first, the key
  is zero-padded to the block size, and the digest is
  \<open>H((k XOR opad) || H((k XOR ipad) || msg))\<close>.
\<close>

definition hmac_key :: "int list \<Rightarrow> int list" where
  "hmac_key key = (if length key > 64 then sha1 key else key)"

definition hmac_pad :: "int \<Rightarrow> int list \<Rightarrow> int list" where
  "hmac_pad x k = map (\<lambda>b. b XOR x) (k @ replicate (64 - length k) 0)"

definition hmac_sha1_int :: "int list \<Rightarrow> int list \<Rightarrow> int list" where
  "hmac_sha1_int key msg =
     sha1 (hmac_pad 0x5c (hmac_key key) @ sha1 (hmac_pad 0x36 (hmac_key key) @ msg))"

definition hmac_sha1 :: "byte list \<Rightarrow> byte list \<Rightarrow> byte list" where
  "hmac_sha1 key msg = map word_of_int (hmac_sha1_int (map uint key) (map uint msg))"

section \<open>Time (package time)\<close>

text \<open>
  A \<^verbatim>\<open>time.Time\<close> is modelled by its absolute time: the nanoseconds elapsed since Go's
  zero time, January 1 of year 1, 00:00:00 UTC, which is the origin \<^verbatim>\<open>Time.Round\<close>
  counts multiples from. A \<^verbatim>\<open>time.Duration\<close> is an \<^verbatim>\<open>int64\<close> count of nanoseconds;
  multiplying two durations wraps around. \<^verbatim>\<open>Time.Add\<close> works on seconds and nanoseconds
  separately and does not overflow on any clock reading.
\<close>

type_synonym Time = int
type_synonym Duration = int

definition unixToInternal :: int where
  "unixToInternal = 62135596800"

definition Second :: Duration where
  "Second = 1000000000"

definition Minute :: Duration where
  "Minute = 60 * Second"

definition wrap64 :: "int \<Rightarrow> int" where
  "wrap64 x = (x + 9223372036854775808) mod 18446744073709551616 - 9223372036854775808"

definition Duration_mul :: "Duration \<Rightarrow> Duration \<Rightarrow> Duration" where
  "Duration_mul a b = wrap64 (a * b)"

definition Add :: "Time \<Rightarrow> Duration \<Rightarrow> Time" where
  "Add t d = t + d"

text \<open>
  \<^verbatim>\<open>t.Round(d)\<close>: the nearest multiple of \<^verbatim>\<open>d\<close> since the zero time, halfway values
  rounding up; \<^verbatim>\<open>t\<close> itself when \<^verbatim>\<open>d <= 0\<close>. The library computes the remainder
  \<^verbatim>\<open>r\<close> of \<^verbatim>\<open>t\<close> by \<^verbatim>\<open>d\<close> and returns \<^verbatim>\<open>t.Add(-r)\<close> when \<^verbatim>\<open>r + r < d\<close>, and
  \<^verbatim>\<open>t.Add(d - r)\<close> otherwise.
\<close>

definition Round :: "Time \<Rightarrow> Duration \<Rightarrow> Time" where
  "Round t d =
     (if d \<le> 0 then t
      else if t mod d + t mod d < d then Add t (- (t mod d))
      else Add t (d - t mod d))"

text \<open>\<^verbatim>\<open>t.Unix()\<close>: whole seconds since January 1, 1970 UTC.\<close>

definition Unix :: "Time \<Rightarrow> int" where
  "Unix t = t div 1000000000 - unixToInternal"

text \<open>\<^verbatim>\<open>time.Unix(sec, nsec)\<close>, used to write clock readings down.\<close>

definition UnixTime :: "int \<Rightarrow> int \<Rightarrow> Time" where
  "UnixTime sec nsec = (sec + unixToInternal) * 1000000000 + nsec"

section \<open>Base32 (encoding/base32, StdEncoding)\<close>

text \<open>
  The transport encoding is Go's \<^verbatim>\<open>base32.StdEncoding\<close>: the alphabet of RFC 4648 with
  \<^verbatim>\<open>=\<close> padding. The library is modelled by its byte-wise algorithm: five source bytes
  give eight 5-bit values, and back.
\<close>

datatype error = CorruptInputError

definition encodeStd :: string where
  "encodeStd = ''ABCDEFGHIJKLMNOPQRSTUVWXYZ234567''"

definition padChar :: char where
  "padChar = CHR ''=''"

fun index_of :: "'a \<Rightarrow> 'a list \<Rightarrow> nat option" where
  "index_of x [] = None"
| "index_of x (y # ys) = (if x = y then Some 0 else map_option Suc (index_of x ys))"

text \<open>The table \<^verbatim>\<open>decodeMap\<close>: \<^verbatim>\<open>0xFF\<close> for a byte outside the alphabet.\<close>

definition decodeMap :: "char \<Rightarrow> byte" where
  "decodeMap c = (case index_of c encodeStd of None \<Rightarrow> 0xFF | Some i \<Rightarrow> of_nat i)"

definition encode_char :: "byte \<Rightarrow> char" where
  "encode_char b = encodeStd ! unat (b AND 31)"

definition unpack :: "byte \<Rightarrow> byte \<Rightarrow> byte \<Rightarrow> byte \<Rightarrow> byte \<Rightarrow> byte list" where
  "unpack s0 s1 s2 s3 s4 =
     [drop_bit 3 s0,
      (drop_bit 6 s1 AND 0x1F) OR (push_bit 2 s0 AND 0x1F),
      drop_bit 1 s1 AND 0x1F,
      (drop_bit 4 s2 AND 0x1F) OR (push_bit 4 s1 AND 0x1F),
      drop_bit 7 s3 OR (push_bit 1 s2 AND 0x1F),
      drop_bit 2 s3 AND 0x1F,
      drop_bit 5 s4 OR (push_bit 3 s3 AND 0x1F),
      s4 AND 0x1F]"

text \<open>
  \<^verbatim>\<open>EncodeToString\<close>: a final quantum of fewer than five bytes is unpacked with the
  missing bytes zero and filled up with the padding character.
\<close>

fun EncodeToString :: "byte list \<Rightarrow> string" where
  "EncodeToString (s0 # s1 # s2 # s3 # s4 # rest) =
     map encode_char (unpack s0 s1 s2 s3 s4) @ EncodeToString rest"
| "EncodeToString [s0, s1, s2, s3] =
     take 7 (map encode_char (unpack s0 s1 s2 s3 0)) @ replicate 1 padChar"
| "EncodeToString [s0, s1, s2] =
     take 5 (map encode_char (unpack s0 s1 s2 0 0)) @ replicate 3 padChar"
| "EncodeToString [s0, s1] =
     take 4 (map encode_char (unpack s0 s1 0 0 0)) @ replicate 4 padChar"
| "EncodeToString [s0] =
     take 2 (map encode_char (unpack s0 0 0 0 0)) @ replicate 6 padChar"
| "EncodeToString [] = []"

text \<open>
  Decoding packs the 5-bit values \<^verbatim>\<open>dbuf[0..7]\<close> of a quantum into five bytes, of which
  a quantum cut short by padding after \<^verbatim>\<open>dlen\<close> values yields the leading ones.
\<close>

definition pack :: "byte list \<Rightarrow> byte list" where
  "pack d =
     [push_bit 3 (d ! 0) OR drop_bit 2 (d ! 1),
      push_bit 6 (d ! 1) OR push_bit 1 (d ! 2) OR drop_bit 4 (d ! 3),
      push_bit 4 (d ! 3) OR drop_bit 1 (d ! 4),
      push_bit 7 (d ! 4) OR push_bit 2 (d ! 5) OR drop_bit 3 (d ! 6),
      push_bit 5 (d ! 6) OR d ! 7]"

definition nbytes :: "nat \<Rightarrow> nat" where
  "nbytes dlen =
     (if dlen = 8 then 5 else if dlen = 7 then 4 else if dlen = 5 then 3
      else if dlen = 4 then 2 else if dlen = 2 then 1 else 0)"

definition quantum :: "byte list \<Rightarrow> nat \<Rightarrow> byte list" where
  "quantum dbuf dlen = take (nbytes dlen) (pack (dbuf @ replicate (8 - length dbuf) 0))"

text \<open>
  The decoding loop, with \<open>j\<close> the position in the current quantum and \<open>dbuf\<close> the values
  read so far. A padding character is accepted from position 2 on when fewer than eight
  characters follow; the input must then hold enough padding, nothing but padding in the
  rest of the quantum, and a valid number of values. Input that stops inside a quantum is
  corrupt, as is a byte outside the alphabet.
\<close>

fun decode :: "nat \<Rightarrow> byte list \<Rightarrow> string \<Rightarrow> error + byte list" where
  "decode j dbuf [] = (if j = 0 then Inr [] else Inl CorruptInputError)"
| "decode j dbuf (c # src) =
     (if c = padChar \<and> 2 \<le> j \<and> length src < 8 then
        (if length src + j < 7 then Inl CorruptInputError
         else if list_ex (\<lambda>x. x \<noteq> padChar) (take (7 - j) src) then Inl CorruptInputError
         else if j = 1 \<or> j = 3 \<or> j = 6 then Inl CorruptInputError
         else Inr (quantum dbuf j))
      else if decodeMap c = 0xFF then Inl CorruptInputError
      else if j = 7 then
        (case decode 0 [] src of
           Inl e \<Rightarrow> Inl e
         | Inr out \<Rightarrow> Inr (quantum (dbuf @ [decodeMap c]) 8 @ out))
      else decode (Suc j) (dbuf @ [decodeMap c]) src)"

text \<open>\<^verbatim>\<open>DecodeString\<close> drops carriage returns and line feeds first.\<close>

definition stripNewlines :: "string \<Rightarrow> string" where
  "stripNewlines s = filter (\<lambda>c. c \<noteq> CHR 0x0D \<and> c \<noteq> CHR 0x0A) s"

definition DecodeString :: "string \<Rightarrow> error + byte list" where
  "DecodeString s = decode 0 [] (stripNewlines s)"

section \<open>PassKey\<close>

text \<open>
  The struct \<^verbatim>\<open>PassKey\<close>. The arrays \<^verbatim>\<open>secret [20]byte\<close> and
  \<^verbatim>\<open>cnp [3]atomic.Uint64\<close> are lists; \<open>wf\<close> states their lengths. Every slot is
  loaded and stored atomically, and the model runs the operations one after the other.
\<close>

record PassKey =
  interval :: Duration
  secret :: "byte list"
  cnp :: "uint64 list"

definition wf :: "PassKey \<Rightarrow> bool" where
  "wf pk = (length (secret pk) = 20 \<and> length (cnp pk) = 3)"

text \<open>The zero value \<^verbatim>\<open>new(PassKey)\<close>.\<close>

definition PassKey0 :: PassKey where
  "PassKey0 = \<lparr>interval = 0, secret = replicate 20 0, cnp = [0, 0, 0]\<rparr>"

text \<open>\<^verbatim>\<open>Interval\<close>; the argument is a pointer, \<open>None\<close> for \<^verbatim>\<open>nil\<close>.\<close>

definition Interval :: "PassKey \<Rightarrow> Duration option \<Rightarrow> PassKey" where
  "Interval pk iv =
     pk\<lparr>interval := (case iv of None \<Rightarrow> Minute | Some v \<Rightarrow> if v = 0 then Minute else v)\<rparr>"

subsection \<open>generate\<close>

text \<open>
  The value passed to \<^verbatim>\<open>PutUint64\<close>:
  \<^verbatim>\<open>uint64(time.Now().UTC().Add(time.Duration(i-1)*pk.interval).Round(pk.interval).Unix())\<close>,
  with the clock reading \<open>now\<close> as an argument.
\<close>

definition bucket :: "Duration \<Rightarrow> int \<Rightarrow> Time \<Rightarrow> uint64" where
  "bucket iv i now = word_of_int (Unix (Round (Add now (Duration_mul (i - 1) iv)) iv))"

text \<open>
  Signing and truncation: the HMAC-SHA1 of the eight time bytes under the secret, the start
  index \<^verbatim>\<open>nibble := ((hash[19] & 0xf) / 2) + 1\<close> in \<^verbatim>\<open>uint8\<close> arithmetic, and
  \<^verbatim>\<open>binary.LittleEndian.Uint64(hash[nibble : nibble+8])\<close>. \<open>None\<close> is a panic.
\<close>

definition nibble :: "byte list \<Rightarrow> byte" where
  "nibble hash = (hash ! 19 AND 0xf) div 2 + 1"

definition token :: "byte list \<Rightarrow> uint64 \<Rightarrow> uint64 option" where
  "token sec b =
     (let hash = hmac_sha1 sec (PutUint64 b)
      in case slice hash (unat (nibble hash)) (unat (nibble hash + 8)) of
           None \<Rightarrow> None
         | Some s \<Rightarrow> Uint64 s)"

text \<open>\<^verbatim>\<open>pk.generate(i)\<close> stores the token in \<^verbatim>\<open>pk.cnp[i]\<close>; an index out of range panics.\<close>

definition generate :: "PassKey \<Rightarrow> int \<Rightarrow> Time \<Rightarrow> PassKey option" where
  "generate pk i now =
     (case token (secret pk) (bucket (interval pk) i now) of
        None \<Rightarrow> None
      | Some v \<Rightarrow>
          if 0 \<le> i \<and> i < int (length (cnp pk))
          then Some (pk\<lparr>cnp := (cnp pk)[nat i := v]\<rparr>)
          else None)"

subsection \<open>Start and the interval generator\<close>

text \<open>
  \<^verbatim>\<open>Start\<close> applies the default interval, replaces an all-zero secret by the bytes
  \<open>rnd\<close> that \<^verbatim>\<open>rand.Read\<close> delivers, generates slot 0 (at clock reading \<open>t0\<close>) and
  slot 1 (at \<open>t1\<close>) and creates the ticker; \<^verbatim>\<open>time.NewTicker\<close> panics on a
  non-positive interval.
\<close>

definition Start :: "PassKey \<Rightarrow> byte list \<Rightarrow> Time \<Rightarrow> Time \<Rightarrow> PassKey option" where
  "Start pk rnd t0 t1 =
     (let pk1 = (if interval pk = 0 then Interval pk None else pk);
          pk2 = (if take 20 (secret pk1) = replicate 20 0 then pk1\<lparr>secret := rnd\<rparr> else pk1)
      in case generate pk2 0 t0 of
           None \<Rightarrow> None
         | Some pk3 \<Rightarrow>
             (case generate pk3 1 t1 of
                None \<Rightarrow> None
              | Some pk4 \<Rightarrow> if interval pk4 \<le> 0 then None else Some pk4))"

text \<open>
  One firing of the ticker, at clock reading \<open>now\<close>:
  \<^verbatim>\<open>pk.cnp[2].Store(pk.cnp[0].Load()); pk.cnp[0].Store(pk.cnp[1].Load()); pk.generate(1)\<close>.
\<close>

definition tick :: "PassKey \<Rightarrow> Time \<Rightarrow> PassKey option" where
  "tick pk now =
     (let pk1 = pk\<lparr>cnp := (cnp pk)[2 := cnp pk ! 0]\<rparr>;
          pk2 = pk1\<lparr>cnp := (cnp pk1)[0 := cnp pk1 ! 1]\<rparr>
      in generate pk2 1 now)"


subsection \<open>Secret\<close>

text \<open>
  The argument of \<^verbatim>\<open>Secret\<close> is an \<^verbatim>\<open>interface{}\<close>; the type switch tells a string, a
  \<^verbatim>\<open>[20]byte\<close> and every other dynamic type apart. The method returns its receiver or
  \<^verbatim>\<open>nil\<close>; the receiver's state after the call is the second component.
  \<^verbatim>\<open>copy(dst, src)\<close> overwrites the first \<^verbatim>\<open>min(len(dst), len(src))\<close> bytes.
\<close>

datatype secret_arg = StringArg string | Byte20Arg "byte list" | OtherArg

datatype pointer = Nil | Receiver

definition copy :: "'a list \<Rightarrow> 'a list \<Rightarrow> 'a list" where
  "copy dst src = take (length dst) src @ drop (length src) dst"

definition Secret :: "PassKey \<Rightarrow> secret_arg \<Rightarrow> pointer \<times> PassKey" where
  "Secret pk arg =
     (case arg of
        StringArg v \<Rightarrow>
          if length v = 32 then
            (case DecodeString v of
               Inl err \<Rightarrow> (Nil, pk)
             | Inr b \<Rightarrow>
                 if length v \<noteq> 32 then (Nil, pk)
                 else (Receiver, pk\<lparr>secret := copy (secret pk) b\<rparr>))
          else (Receiver, pk)
      | Byte20Arg v \<Rightarrow> (Receiver, pk\<lparr>secret := copy (secret pk) v\<rparr>)
      | OtherArg \<Rightarrow> (Receiver, pk))"

section \<open>Server\<close>

text \<open>
  \<^verbatim>\<open>Server\<close> embeds a \<^verbatim>\<open>PassKey\<close> and adds the header key name. A request is seen
  through \<^verbatim>\<open>r.Header.Get\<close>, which yields the empty string for an absent key. The
  middleware answers 400, answers 401 or calls \<^verbatim>\<open>next.ServeHTTP\<close>.
\<close>

record Server =
  server_PassKey :: PassKey
  server_hKey :: string

type_synonym Request = "string \<Rightarrow> string"

datatype response = StatusBadRequest | StatusUnauthorized | ServeHTTP | Panic

text \<open>\<^verbatim>\<open>IsValid\<close> first sets the default header key.\<close>

definition default_hKey :: "Server \<Rightarrow> Server" where
  "default_hKey srv = (if length (server_hKey srv) = 0 then srv\<lparr>server_hKey := ''token''\<rparr> else srv)"

definition IsValid :: "Server \<Rightarrow> Request \<Rightarrow> response" where
  "IsValid srv r =
     (case DecodeString (r (server_hKey (default_hKey srv))) of
        Inl err \<Rightarrow> StatusBadRequest
      | Inr b \<Rightarrow>
          if length b \<noteq> 10 then StatusBadRequest
          else
            (case Uint64 (take 8 b) of
               None \<Rightarrow> Panic
             | Some code \<Rightarrow>
                 if code = cnp (server_PassKey srv) ! 0 then ServeHTTP
                 else if code = cnp (server_PassKey srv) ! 1 then ServeHTTP
                 else if code = cnp (server_PassKey srv) ! 2 then ServeHTTP
                 else StatusUnauthorized))"

section \<open>Client and command line\<close>

record Client =
  client_PassKey :: PassKey
  client_hKey :: string

text \<open>
  \<^verbatim>\<open>SetHeader\<close>: the current slot in little-endian order, followed by the two bytes
  \<open>r8\<close>, \<open>r9\<close> read from \<^verbatim>\<open>rand.Read\<close>, in base32 under the header key.
\<close>

definition credential :: "uint64 \<Rightarrow> byte \<Rightarrow> byte \<Rightarrow> string" where
  "credential code r8 r9 = EncodeToString (PutUint64 code @ [r8, r9])"

definition SetHeader :: "Client \<Rightarrow> byte \<Rightarrow> byte \<Rightarrow> Request \<Rightarrow> Request" where
  "SetHeader c r8 r9 req =
     req(client_hKey c := credential (cnp (client_PassKey c) ! 0) r8 r9)"

text \<open>
  \<^verbatim>\<open>CMD.Current\<close>: no interval generator; slot 0 is generated at the clock reading
  \<open>now\<close> and returned as a credential.
\<close>

definition Current :: "PassKey \<Rightarrow> string \<Rightarrow> byte list \<Rightarrow> byte \<Rightarrow> byte \<Rightarrow> Time \<Rightarrow> (PassKey \<times> string) option" where
  "Current pk sec rnd r8 r9 now =
     (let pk1 = (if interval pk = 0 then Interval pk None else pk);
          pk2 = snd (Secret pk1 (StringArg sec));
          pk3 = (if take 20 (secret pk2) = replicate 20 0 then pk2\<lparr>secret := rnd\<rparr> else pk2)
      in case generate pk3 0 now of
           None \<Rightarrow> None
         | Some pk4 \<Rightarrow> Some (pk4, credential (cnp pk4 ! 0) r8 r9))"

section \<open>Names of the slots, runs of the generator\<close>

text \<open>
  The comments of \<^verbatim>\<open>Start\<close> and \<^verbatim>\<open>generate\<close> name the slots: index 0 is the current
  token, index 1 the next and index 2 the previous one.
\<close>

definition current_slot :: "PassKey \<Rightarrow> uint64" where
  "current_slot pk = cnp pk ! 0"

definition next_slot :: "PassKey \<Rightarrow> uint64" where
  "next_slot pk = cnp pk ! 1"

definition previous_slot :: "PassKey \<Rightarrow> uint64" where
  "previous_slot pk = cnp pk ! 2"




text \<open>A server without a header key of its own, and a request that carries \<open>v\<close> under
  the default key.\<close>

definition server_with :: "PassKey \<Rightarrow> Server" where
  "server_with pk = \<lparr>server_PassKey = pk, server_hKey = []\<rparr>"

definition request_with :: "string \<Rightarrow> Request" where
  "request_with v = (\<lambda>k. if k = ''token'' then v else [])"


section \<open>The specification's wording\<close>

text \<open>
  The specification describes the derived code positionally: the time bucket is serialised
  as eight little-endian bytes, and the code is the little-endian unsigned integer read
  from eight digest bytes starting at the offset \<open>((digest[19] & 0xF) / 2) + 1\<close>.
\<close>

fun le_bytes :: "nat \<Rightarrow> nat \<Rightarrow> byte list" where
  "le_bytes 0 n = []"
| "le_bytes (Suc k) n = of_nat (n mod 256) # le_bytes k (n div 256)"

fun le_nat :: "byte list \<Rightarrow> nat" where
  "le_nat [] = 0"
| "le_nat (b # bs) = unat b + 256 * le_nat bs"

definition derive_spec :: "byte list \<Rightarrow> uint64 \<Rightarrow> nat" where
  "derive_spec sec bkt =
     (let digest = hmac_sha1 sec (le_bytes 8 (unat bkt));
          offset = unat (digest ! 19 AND 0xF) div 2 + 1
      in le_nat (take 8 (drop offset digest)))"

text \<open>The derived code of the bucket that holds the instant \<open>x\<close>.\<close>

definition token_at :: "byte list \<Rightarrow> Time \<Rightarrow> uint64" where
  "token_at sec x = of_nat (derive_spec sec (word_of_int (Unix x)))"

text \<open>
  The specification's time bucket: \<open>now\<close> rounded down to the interval boundary and shifted
  by \<open>(slotOffset - 1)\<close> intervals, as a Unix timestamp.
\<close>

definition bucket_spec :: "Duration \<Rightarrow> int \<Rightarrow> Time \<Rightarrow> uint64" where
  "bucket_spec iv slotOffset now =
     word_of_int (Unix ((now div iv) * iv + (slotOffset - 1) * iv))"

section \<open>The example server\<close>

text \<open>
  The example program sets the secret \<^verbatim>\<open>PASSKEYXXBASE32XXSECRETXXEXAMPLE\<close> and an interval
  of fifteen seconds on a fresh \<^verbatim>\<open>Server\<close>.
\<close>

definition ex_secret :: "byte list" where
  "ex_secret = [120, 37, 37, 19, 23, 184, 65, 34, 111, 87,
                188, 136, 40, 146, 119, 185, 46, 6, 61, 100]"

definition ex_pk :: PassKey where
  "ex_pk = \<lparr>interval = 15 * Second, secret = ex_secret, cnp = [0, 0, 0]\<rparr>"

text \<open>
  Windows of the example server: after a start that rounds to the boundary 30 (the tokens
  of the buckets 15 and 30, and the untouched previous slot), after the next firing of the
  ticker and after the one that follows.
\<close>

definition ex_started :: PassKey where
  "ex_started =
     \<lparr>interval = 15 * Second, secret = ex_secret,
      cnp = [13864454372939924539, 9689389432781337617, 0]\<rparr>"

definition ex_ticked :: PassKey where
  "ex_ticked =
     \<lparr>interval = 15 * Second, secret = ex_secret,
      cnp = [9689389432781337617, 4378494242436885426, 13864454372939924539]\<rparr>"

definition ex_ticked2 :: PassKey where
  "ex_ticked2 =
     \<lparr>interval = 15 * Second, secret = ex_secret,
      cnp = [4378494242436885426, 14410486662175249493, 9689389432781337617]\<rparr>"

subsection \<open>The digest has twenty bytes; published test vectors\<close>

lemma length_sha1_out: "length (sha1_out s) = 20"
  by (cases s) (simp add: u32_be_def)

lemma length_sha1: "length (sha1 m) = 20"
  by (simp add: sha1_def length_sha1_out)

lemma length_hmac_sha1: "length (hmac_sha1 key msg) = 20"
  by (simp add: hmac_sha1_def hmac_sha1_int_def length_sha1)

text \<open>FIPS 180 example: the digest of \<open>abc\<close>.\<close>

lemma sha1_abc:
  "sha1 [0x61, 0x62, 0x63] =
     [0xa9, 0x99, 0x3e, 0x36, 0x47, 0x06, 0x81, 0x6a, 0xba, 0x3e,
      0x25, 0x71, 0x78, 0x50, 0xc2, 0x6c, 0x9c, 0xd0, 0xd8, 0x9d]"
  by code_simp

text \<open>RFC 2202, test case 1: key \<open>0x0b\<close> twenty times, data \<open>Hi There\<close>.\<close>

lemma hmac_sha1_rfc2202_1:
  "hmac_sha1_int (replicate 20 0x0b) [0x48, 0x69, 0x20, 0x54, 0x68, 0x65, 0x72, 0x65] =
     [0xb6, 0x17, 0x31, 0x86, 0x55, 0x05, 0x72, 0x64, 0xe2, 0x8b,
      0xc0, 0xb6, 0xfb, 0x37, 0x8c, 0x8e, 0xf1, 0x46, 0xbe, 0x00]"
  by code_simp

subsection \<open>Little-endian round trip, truncation bounds\<close>

lemma and15: "unat ((h::byte) AND 0xf) < 16"
proof -
  have "h AND 15 \<le> 15"
    by (rule word_and_le1)
  then have "unat (h AND 15) \<le> 15"
    by (simp add: word_le_nat_alt)
  then show ?thesis by simp
qed

lemma nib1: "unat (((h::byte) AND 0xf) div 2) < 8"
  using and15[of h] by (simp add: unat_div)

lemma nib2: "unat (((h::byte) AND 0xf) div 2 + 1) = unat ((h AND 0xf) div 2) + 1"
  using nib1[of h] by (simp add: unat_word_ariths)

lemma nib3: "unat (((h::byte) AND 0xf) div 2 + 1 + 8) = unat ((h AND 0xf) div 2) + 9"
  using nib1[of h] by (simp add: unat_word_ariths)

lemma byte_at:
  "bit (push_bit k (ucast (ucast (drop_bit k (v::uint64)) :: byte)) :: uint64) n \<longleftrightarrow> (k \<le> n \<and> n < k + 8 \<and> bit v n)"
proof (cases "k \<le> n")
  case True
  then have "k + (n - k) = n" by simp
  moreover have "bit v n \<Longrightarrow> n < 64" using bit_imp_le_length[of v n] by simp
  ultimately show ?thesis using True by (auto simp add: bit_simps)
next
  case False
  then show ?thesis by (simp add: bit_simps)
qed

lemma byte_at0:
  "bit (ucast (ucast (v::uint64) :: byte) :: uint64) n \<longleftrightarrow> (n < 8 \<and> bit v n)"
  using byte_at[of 0 v n] by simp


lemma Uint64_PutUint64: "Uint64 (PutUint64 v) = Some v"
proof -
  let ?x = "ucast (ucast v :: byte) OR push_bit 8 (ucast (ucast (drop_bit 8 v) :: byte))
        OR push_bit 16 (ucast (ucast (drop_bit 16 v) :: byte))
        OR push_bit 24 (ucast (ucast (drop_bit 24 v) :: byte))
        OR push_bit 32 (ucast (ucast (drop_bit 32 v) :: byte))
        OR push_bit 40 (ucast (ucast (drop_bit 40 v) :: byte))
        OR push_bit 48 (ucast (ucast (drop_bit 48 v) :: byte))
        OR push_bit 56 (ucast (ucast (drop_bit 56 v) :: byte)) :: uint64"
  have "?x = v"
  proof (rule bit_word_eqI)
    fix n assume "n < LENGTH(64)"
    then have cover: "n < 8 \<or> (8 \<le> n \<and> n < 16) \<or> (16 \<le> n \<and> n < 24) \<or> (24 \<le> n \<and> n < 32)
       \<or> (32 \<le> n \<and> n < 40) \<or> (40 \<le> n \<and> n < 48) \<or> (48 \<le> n \<and> n < 56)
       \<or> (56 \<le> n \<and> n < 64)"
      by simp arith
    show "bit ?x n = bit v n"
      using cover by (elim disjE conjE; simp add: bit_or_iff byte_at byte_at0)
  qed
  then show ?thesis
    by (simp add: PutUint64_def)
qed


lemma length_PutUint64: "length (PutUint64 v) = 8"
  by (simp add: PutUint64_def)

lemma unat_nibble: "unat (nibble hash) = unat (hash ! 19 AND 0xf) div 2 + 1"
  using nib2[of "hash ! 19"] by (simp add: nibble_def unat_div)

lemma unat_nibble_8: "unat (nibble hash + 8) = unat (nibble hash) + 8"
  using nib2[of "hash ! 19"] nib3[of "hash ! 19"] by (simp add: nibble_def)

lemma nibble_le: "unat (nibble hash) \<le> 8"
  using nib1[of "hash ! 19"] nib2[of "hash ! 19"] by (simp add: nibble_def)

lemma slice_nibble:
  assumes "length hash = 20"
  shows "slice hash (unat (nibble hash)) (unat (nibble hash + 8)) =
           Some (take 8 (drop (unat (nibble hash)) hash))"
  using assms nibble_le[of hash] by (simp add: slice_def unat_nibble_8)

subsection \<open>Base32: decoding an encoded credential\<close>

text \<open>RFC 4648, section 10: the encodings of \<open>foobar\<close> and of \<open>fo\<close>.\<close>

lemma base32_rfc4648:
  "EncodeToString [0x66, 0x6f, 0x6f, 0x62, 0x61, 0x72] = ''MZXW6YTBOI======''"
  "DecodeString ''MZXW6YTBOI======'' = Inr [0x66, 0x6f, 0x6f, 0x62, 0x61, 0x72]"
  "EncodeToString [0x66, 0x6f] = ''MZXQ====''"
  "DecodeString ''MZXQ===='' = Inr [0x66, 0x6f]"
  "DecodeString ''MZXQ==='' = Inl CorruptInputError"
  by code_simp+

lemma alphabet_table:
  "list_all (\<lambda>n. decodeMap (encodeStd ! n) = of_nat n \<and> encodeStd ! n \<noteq> padChar
                \<and> encodeStd ! n \<noteq> CHR 0x0D \<and> encodeStd ! n \<noteq> CHR 0x0A) [0..<32]"
  by code_simp

lemma alphabet_nth:
  assumes "n < 32"
  shows "decodeMap (encodeStd ! n) = of_nat n" and "encodeStd ! n \<noteq> padChar"
    and "encodeStd ! n \<noteq> CHR 0x0D" and "encodeStd ! n \<noteq> CHR 0x0A"
  using alphabet_table assms unfolding list_all_iff by auto

lemma and31: "unat ((b::byte) AND 31) < 32"
proof -
  have "b AND 31 \<le> 31"
    by (rule word_and_le1)
  then have "unat (b AND 31) \<le> 31"
    by (simp add: word_le_nat_alt)
  then show ?thesis by simp
qed

lemma decodeMap_encode_char: "decodeMap (encode_char b) = b AND 31"
  using alphabet_nth(1)[OF and31[of b]] by (simp add: encode_char_def)

lemma encode_char_not_pad: "encode_char b \<noteq> padChar"
  using alphabet_nth(2)[OF and31[of b]] by (simp add: encode_char_def)

lemma encode_char_not_newline: "encode_char b \<noteq> CHR 0x0D" "encode_char b \<noteq> CHR 0x0A"
  using alphabet_nth(3,4)[OF and31[of b]] by (simp_all add: encode_char_def)

lemma and31_not_FF: "(b::byte) AND 31 \<noteq> 0xFF"
proof
  assume "b AND 31 = 0xFF"
  then have "unat (b AND 31) = 255" by simp
  with and31[of b] show False by simp
qed

lemma m31: "(31::byte) = mask 5" by (simp add: mask_eq_exp_minus_1)

lemma byte_eqI8:
  fixes a b :: byte
  assumes "bit a 0 = bit b 0" "bit a 1 = bit b 1" "bit a 2 = bit b 2" "bit a 3 = bit b 3"
    "bit a 4 = bit b 4" "bit a 5 = bit b 5" "bit a 6 = bit b 6" "bit a 7 = bit b 7"
  shows "a = b"
proof (rule bit_word_eqI)
  fix n assume "n < LENGTH(8)"
  then have "n \<in> {0, 1, 2, 3, 4, 5, 6, 7}"
    by auto
  then show "bit a n = bit b n"
    using assms by auto
qed

lemma bit_times2: "bit (a * 2 :: byte) n = (1 \<le> n \<and> n < 8 \<and> bit a (n - 1))"
proof -
  have "a * 2 = push_bit 1 a" by (simp add: push_bit_eq_mult)
  then show ?thesis by (simp only: bit_push_bit_iff) (auto simp add: bit_simps)
qed

lemma pack_unpack:
  "pack (map (\<lambda>v. v AND 31) (unpack s0 s1 s2 s3 s4)) = [s0, s1, s2, s3, s4]"
proof -
  have "pack (map (\<lambda>v. v AND mask 5) (unpack s0 s1 s2 s3 s4)) = [s0, s1, s2, s3, s4]"
    unfolding pack_def unpack_def m31
    by (simp; intro conjI; rule byte_eqI8; simp add: bit_simps bit_times2 numeral_2_eq_2[symmetric] numeral_3_eq_3[symmetric])
  then show ?thesis by (simp add: m31)
qed

lemma length_pack: "length (pack d) = 5"
  by (simp add: pack_def)

lemma decode_values:
  "decode 0 [] (map encode_char [v0, v1, v2, v3, v4, v5, v6, v7] @ rest) =
     (case decode 0 [] rest of
        Inl e \<Rightarrow> Inl e
      | Inr out \<Rightarrow> Inr (pack (map (\<lambda>v. v AND 31) [v0, v1, v2, v3, v4, v5, v6, v7]) @ out))"
  by (simp add: encode_char_not_pad decodeMap_encode_char and31_not_FF quantum_def nbytes_def
           length_pack split: sum.split)

lemma decode_quantum:
  "decode 0 [] (map encode_char (unpack s0 s1 s2 s3 s4) @ rest) =
     (case decode 0 [] rest of Inl e \<Rightarrow> Inl e | Inr out \<Rightarrow> Inr ([s0, s1, s2, s3, s4] @ out))"
proof -
  obtain v0 v1 v2 v3 v4 v5 v6 v7 where u: "unpack s0 s1 s2 s3 s4 = [v0, v1, v2, v3, v4, v5, v6, v7]"
    by (simp add: unpack_def)
  have "pack (map (\<lambda>v. v AND 31) [v0, v1, v2, v3, v4, v5, v6, v7]) = [s0, s1, s2, s3, s4]"
    using pack_unpack[of s0 s1 s2 s3 s4] by (simp only: u)
  then show ?thesis
    by (simp only: u decode_values)
qed

lemma stripNewlines_encoded: "stripNewlines (map encode_char vs) = map encode_char vs"
  by (induction vs) (simp_all add: stripNewlines_def encode_char_not_newline)

lemma DecodeString_10:
  "DecodeString (EncodeToString [a0, a1, a2, a3, a4, a5, a6, a7, a8, a9]) =
     Inr [a0, a1, a2, a3, a4, a5, a6, a7, a8, a9]"
proof -
  have enc: "EncodeToString [a0, a1, a2, a3, a4, a5, a6, a7, a8, a9] =
        map encode_char (unpack a0 a1 a2 a3 a4 @ unpack a5 a6 a7 a8 a9)"
    by simp
  have "decode 0 [] (map encode_char (unpack a0 a1 a2 a3 a4) @ map encode_char (unpack a5 a6 a7 a8 a9) @ []) =
        Inr [a0, a1, a2, a3, a4, a5, a6, a7, a8, a9]"
    by (simp only: decode_quantum) simp
  then show ?thesis
    by (simp only: enc DecodeString_def stripNewlines_encoded) simp
qed

lemma DecodeString_credential:
  "DecodeString (credential code r8 r9) = Inr (PutUint64 code @ [r8, r9])"
  unfolding credential_def PutUint64_def append.simps by (rule DecodeString_10)

subsection \<open>Rounding to the interval\<close>

lemma wrap64_id: "- 9223372036854775808 \<le> x \<Longrightarrow> x < 9223372036854775808 \<Longrightarrow> wrap64 x = x"
  by (simp add: wrap64_def)

lemma Round_pos:
  assumes "0 < d"
  shows "Round t d = ((2 * t + d) div (2 * d)) * d"
proof -
  define q r where "q = t div d" and "r = t mod d"
  have t: "t = q * d + r" by (simp add: q_def r_def)
  have r: "0 \<le> r" "r < d" using assms by (simp_all add: r_def)
  show ?thesis
  proof (cases "r + r < d")
    case True
    have e: "2 * t + d = 2 * d * q + (2 * r + d)"
      by (simp add: t algebra_simps)
    have "(2 * t + d) div (2 * d) = q"
      by (rule int_div_pos_eq[OF e]) (use True r assms in simp_all)
    moreover have "Round t d = t + (- r)"
      using True assms by (simp add: Round_def Add_def r_def)
    then have "Round t d = q * d"
      by (simp add: t)
    ultimately show ?thesis by simp
  next
    case False
    have e: "2 * t + d = 2 * d * (q + 1) + (2 * r - d)"
      by (simp add: t algebra_simps)
    have "(2 * t + d) div (2 * d) = q + 1"
      by (rule int_div_pos_eq[OF e]) (use False r assms in simp_all)
    moreover have "Round t d = t + (d - r)"
      using False assms by (simp add: Round_def Add_def r_def)
    then have "Round t d = (q + 1) * d"
      by (simp add: t algebra_simps)
    ultimately show ?thesis by simp
  qed
qed

lemma Round_shift: "0 < d \<Longrightarrow> Round (t + k * d) d = Round t d + k * d"
  by (simp add: Round_def Add_def)


lemma bucket_pos:
  assumes "0 < iv" "iv < 9223372036854775808" "i = 0 \<or> i = 1 \<or> i = 2"
  shows "bucket iv i now = word_of_int (Unix (Round now iv + (i - 1) * iv))"
proof -
  have "Duration_mul (i - 1) iv = (i - 1) * iv"
    using assms by (auto simp add: Duration_mul_def wrap64_id)
  then show ?thesis
    using assms(1) Round_shift[of iv now "i - 1"] by (simp add: bucket_def Add_def)
qed

subsection \<open>The shift-and-or code against the positional reading\<close>

lemma unat_byte_lt: "unat (b::byte) < 256"
  using unsigned_less[of b] by simp

lemma le_bytes_le_nat: "le_bytes (length bs) (le_nat bs) = bs"
  by (induction bs) (simp_all add: unat_byte_lt)

lemma le_nat_bound: "le_nat bs < 256 ^ length bs"
proof (induction bs)
  case (Cons b bs)
  then have "256 * le_nat bs + 256 \<le> 256 * 256 ^ length bs"
    by simp
  with unat_byte_lt[of b] show ?case
    by simp
qed simp

lemma ucast_byte: "(ucast (w::uint64) :: byte) = of_nat (unat w mod 256)"
proof -
  have "(of_nat (unat w mod 256) :: byte) = of_nat (unat w)"
    unfolding word_of_nat_eq_iff by (simp add: take_bit_eq_mod)
  also have "\<dots> = ucast w" by simp
  finally show ?thesis by simp
qed

lemma ucast_drop_byte: "(ucast (drop_bit k (w::uint64)) :: byte) = of_nat (unat w div 2 ^ k mod 256)"
proof -
  have "unat (drop_bit k w) = drop_bit k (unat w)"
    by (rule unat_drop_bit_eq)
  then have "unat (drop_bit k w) = unat w div 2 ^ k"
    by (simp only: drop_bit_eq_div)
  then show ?thesis
    using ucast_byte[of "drop_bit k w"] by (simp only:)
qed

lemma le_bytes_numeral:
  "le_bytes (numeral k) n = of_nat (n mod 256) # le_bytes (pred_numeral k) (n div 256)"
  by (simp only: numeral_eq_Suc[of k] le_bytes.simps)

lemma PutUint64_le_bytes: "PutUint64 v = le_bytes 8 (unat v)"
proof -
  have "le_bytes 8 n = [of_nat (n mod 256), of_nat (n div 2 ^ 8 mod 256), of_nat (n div 2 ^ 16 mod 256),
      of_nat (n div 2 ^ 24 mod 256), of_nat (n div 2 ^ 32 mod 256), of_nat (n div 2 ^ 40 mod 256),
      of_nat (n div 2 ^ 48 mod 256), of_nat (n div 2 ^ 56 mod 256)]" for n
    by (simp add: le_bytes_numeral div_mult2_eq[symmetric])
  then show ?thesis
    unfolding PutUint64_def ucast_byte unat_drop_bit_eq by (simp add: drop_bit_eq_div)
qed

lemma Uint64_le_nat:
  assumes "length s = 8"
  shows "Uint64 s = Some (of_nat (le_nat s))"
proof -
  let ?v = "of_nat (le_nat s) :: uint64"
  have "le_nat s < 2 ^ 64"
    using le_nat_bound[of s] assms by simp
  then have "unat ?v = le_nat s"
    by (simp add: unat_of_nat)
  then have "PutUint64 ?v = s"
    using le_bytes_le_nat[of s] assms by (simp add: PutUint64_le_bytes)
  then show ?thesis
    using Uint64_PutUint64[of ?v] by simp
qed

lemma token_slice:
  "token sec b =
     Uint64 (take 8 (drop (unat (nibble (hmac_sha1 sec (PutUint64 b)))) (hmac_sha1 sec (PutUint64 b))))"
  by (simp only: token_def Let_def slice_nibble[OF length_hmac_sha1] option.case)

lemma token_derive_spec: "token sec b = Some (of_nat (derive_spec sec b))"
proof -
  let ?hash = "hmac_sha1 sec (PutUint64 b)"
  let ?s = "take 8 (drop (unat (nibble ?hash)) ?hash)"
  have "length ?s = 8"
    using length_hmac_sha1[of sec "PutUint64 b"] nibble_le[of ?hash] by simp
  then have "token sec b = Some (of_nat (le_nat ?s))"
    unfolding token_slice by (rule Uint64_le_nat)
  moreover have "le_nat ?s = derive_spec sec b"
    by (simp add: derive_spec_def Let_def unat_nibble PutUint64_le_bytes)
  ultimately show ?thesis by simp
qed

lemma ex_bucket_simps:
  "wf ex_pk" "interval ex_pk = 15 * Second" "secret ex_pk = ex_secret" "cnp ex_pk = [0, 0, 0]"
  by (simp_all add: ex_pk_def wf_def ex_secret_def)

lemmas time_eval = bucket_def Duration_mul_def wrap64_def Second_def UnixTime_def
  unixToInternal_def Round_def Add_def Unix_def

subsection \<open>The example secret and its tokens\<close>

lemma ex_hmac_15:
  "hmac_sha1_int (map uint ex_secret) [15, 0, 0, 0, 0, 0, 0, 0] =
     [1, 217, 52, 77, 50, 141, 180, 140, 59, 4, 178, 143, 203, 111, 104, 192, 29, 172, 209, 238]"
  unfolding ex_secret_def by code_simp

lemma ex_token_15: "token ex_secret 15 = Some 13864454372939924539"
  by (simp add: token_def hmac_sha1_def PutUint64_def ex_hmac_15 nibble_def slice_def)

lemma ex_hmac_30:
  "hmac_sha1_int (map uint ex_secret) [30, 0, 0, 0, 0, 0, 0, 0] =
     [59, 110, 211, 195, 152, 160, 175, 17, 244, 90, 63, 90, 160, 119, 134, 34, 162, 176, 49, 236]"
  unfolding ex_secret_def by code_simp

lemma ex_token_30: "token ex_secret 30 = Some 9689389432781337617"
  by (simp add: token_def hmac_sha1_def PutUint64_def ex_hmac_30 nibble_def slice_def)

lemma ex_hmac_45:
  "hmac_sha1_int (map uint ex_secret) [45, 0, 0, 0, 0, 0, 0, 0] =
     [190, 228, 178, 43, 139, 179, 80, 137, 195, 60, 61, 45, 169, 112, 169, 185, 193, 144, 6, 50]"
  unfolding ex_secret_def by code_simp

lemma ex_token_45: "token ex_secret 45 = Some 4378494242436885426"
  by (simp add: token_def hmac_sha1_def PutUint64_def ex_hmac_45 nibble_def slice_def)

lemma ex_hmac_60:
  "hmac_sha1_int (map uint ex_secret) [60, 0, 0, 0, 0, 0, 0, 0] =
     [209, 85, 212, 117, 235, 68, 85, 252, 199, 70, 117, 249, 141, 88, 239, 125, 114, 125, 88, 160]"
  unfolding ex_secret_def by code_simp

lemma ex_token_60: "token ex_secret 60 = Some 14410486662175249493"
  by (simp add: token_def hmac_sha1_def PutUint64_def ex_hmac_60 nibble_def slice_def)

lemma ex_secret_decode: "DecodeString ''PASSKEYXXBASE32XXSECRETXXEXAMPLE'' = Inr ex_secret"
  by code_simp

lemma decode_examples:
  "DecodeString ''11111111111111111111111111111111'' = Inl CorruptInputError"
  "DecodeString ''AAAAAAAAAAAAAAAA'' = Inr [0, 0, 0, 0, 0, 0, 0, 0, 0, 0]"
  "DecodeString ''AAAAAAAAAAAAAAA='' = Inr [0, 0, 0, 0, 0, 0, 0, 0, 0]"
  "DecodeString ''AEAAAAAAAAAAAAAA'' = Inr [1, 0, 0, 0, 0, 0, 0, 0, 0, 0]"
  by code_simp+

lemma request_with_token: "request_with v (server_hKey (default_hKey (server_with pk))) = v"
  by (simp add: request_with_def default_hKey_def server_with_def)

lemma server_with_PassKey: "server_PassKey (server_with pk) = pk"
  by (simp add: server_with_def)

lemma IsValid_decoded:
  assumes "DecodeString (r (server_hKey (default_hKey srv))) = Inr b" and "length b = 10"
  shows "IsValid srv r =
           (if of_nat (le_nat (take 8 b)) = current_slot (server_PassKey srv)
               \<or> of_nat (le_nat (take 8 b)) = next_slot (server_PassKey srv)
               \<or> of_nat (le_nat (take 8 b)) = previous_slot (server_PassKey srv)
            then ServeHTTP else StatusUnauthorized)"
proof -
  have "Uint64 (take 8 b) = Some (of_nat (le_nat (take 8 b)))"
    using assms(2) by (intro Uint64_le_nat) simp
  then show ?thesis
    using assms by (simp add: IsValid_def current_slot_def next_slot_def previous_slot_def)
qed

lemma IsValid_malformed:
  "IsValid srv r = StatusBadRequest \<longleftrightarrow>
     (\<exists>e. DecodeString (r (server_hKey (default_hKey srv))) = Inl e) \<or>
     (\<exists>b. DecodeString (r (server_hKey (default_hKey srv))) = Inr b \<and> length b \<noteq> 10)"
proof (cases "DecodeString (r (server_hKey (default_hKey srv)))")
  case (Inl e)
  then show ?thesis by (simp add: IsValid_def)
next
  case (Inr b)
  show ?thesis
  proof (cases "length b = 10")
    case True
    then show ?thesis using Inr IsValid_decoded[where r=r and srv=srv and b=b] by simp
  next
    case False
    then show ?thesis using Inr by (simp add: IsValid_def)
  qed
qed

lemma generate_eq:
  assumes "length (cnp pk) = 3" and "i = 0 \<or> i = 1 \<or> i = 2"
  shows "generate pk i now =
           Some (pk\<lparr>cnp := (cnp pk)[nat i :=
                    of_nat (derive_spec (secret pk) (bucket (interval pk) i now))]\<rparr>)"
  using assms by (auto simp add: generate_def token_derive_spec)

subsection \<open>Start on a fresh PassKey; the example server\<close>

lemma Start_fresh:
  assumes "cnp pk0 = [0, 0, 0]" and "0 \<le> interval pk0"
  shows "\<exists>pk. Start pk0 rnd t0 t1 = Some pk \<and>
           Some (current_slot pk) = token (secret pk) (bucket (interval pk) 0 t0) \<and>
           Some (next_slot pk) = token (secret pk) (bucket (interval pk) 1 t1) \<and>
           previous_slot pk = 0 \<and>
           interval pk = (if interval pk0 = 0 then Minute else interval pk0) \<and>
           secret pk = (if take 20 (secret pk0) = replicate 20 0 then rnd else secret pk0)"
proof -
  let ?pk1 = "if interval pk0 = 0 then Interval pk0 None else pk0"
  let ?pk2 = "if take 20 (secret ?pk1) = replicate 20 0 then ?pk1\<lparr>secret := rnd\<rparr> else ?pk1"
  let ?v0 = "of_nat (derive_spec (secret ?pk2) (bucket (interval ?pk2) 0 t0)) :: uint64"
  let ?v1 = "of_nat (derive_spec (secret ?pk2) (bucket (interval ?pk2) 1 t1)) :: uint64"
  have f: "cnp ?pk2 = [0, 0, 0]"
    "interval ?pk2 = (if interval pk0 = 0 then Minute else interval pk0)"
    "secret ?pk2 = (if take 20 (secret pk0) = replicate 20 0 then rnd else secret pk0)"
    using assms(1) by (simp_all add: Interval_def)
  have pos: "0 < interval ?pk2"
    using assms(2) unfolding f by (simp add: Minute_def Second_def)
  have g0: "generate ?pk2 0 t0 = Some (?pk2\<lparr>cnp := [?v0, 0, 0]\<rparr>)"
    using generate_eq[of ?pk2 0 t0] by (simp only: f) simp
  have g1: "generate (?pk2\<lparr>cnp := [?v0, 0, 0]\<rparr>) 1 t1 = Some (?pk2\<lparr>cnp := [?v0, ?v1, 0]\<rparr>)"
    using generate_eq[of "?pk2\<lparr>cnp := [?v0, 0, 0]\<rparr>" 1 t1] by simp
  have "Start pk0 rnd t0 t1 = Some (?pk2\<lparr>cnp := [?v0, ?v1, 0]\<rparr>)"
    unfolding Start_def Let_def g0 option.case g1 using pos by simp
  then show ?thesis
    by (simp add: current_slot_def next_slot_def previous_slot_def token_derive_spec f)
qed

lemma Start_previous:
  assumes "cnp pk0 = [0, 0, 0]" and "Start pk0 rnd t0 t1 = Some pk"
  shows "previous_slot pk = 0"
  using assms
  by (auto simp add: Start_def Let_def generate_def Interval_def previous_slot_def
      split: option.splits if_splits)

lemma replicate_numeral: "replicate (numeral k) x = x # replicate (pred_numeral k) x"
  by (simp add: numeral_eq_Suc)

lemma replicate_8: "replicate 8 x = [x, x, x, x, x, x, x, x]"
  by (simp add: replicate_numeral)

lemma ex_secret_nonzero: "take 20 ex_secret \<noteq> replicate 20 0"
  by (simp add: ex_secret_def replicate_numeral)

lemma ex_buckets:
  "bucket 15000000000 0 (UnixTime 30 0) = 15"
  "bucket 15000000000 1 (UnixTime 30 0) = 30"
  by (simp_all add: time_eval)

lemma ex_Start:
  "Start ex_pk rnd (UnixTime 30 0) (UnixTime 30 0) = Some ex_started"
  by (simp add: Start_def Let_def generate_def ex_bucket_simps Second_def ex_secret_nonzero
        ex_buckets ex_token_15 ex_token_30)
     (simp add: ex_pk_def ex_started_def Second_def)

lemma copy_20: "length dst = 20 \<Longrightarrow> length src = 20 \<Longrightarrow> copy dst src = src"
  by (simp add: copy_def)

subsection \<open>One firing of the ticker, and a run of firings\<close>

lemma tick_eq:
  assumes "length (cnp pk) = 3"
  shows "tick pk now =
           Some (pk\<lparr>cnp := [cnp pk ! 1,
                            of_nat (derive_spec (secret pk) (bucket (interval pk) 1 now)),
                            cnp pk ! 0]\<rparr>)"
proof -
  obtain a b c where w: "cnp pk = [a, b, c]"
    using assms by (auto simp add: length_Suc_conv numeral_3_eq_3)
  let ?pk2 = "pk\<lparr>cnp := [b, b, a]\<rparr>"
  have "tick pk now = generate ?pk2 1 now"
    by (simp add: tick_def Let_def w)
  also have "\<dots> = Some (?pk2\<lparr>cnp := (cnp ?pk2)[nat 1 :=
                 of_nat (derive_spec (secret ?pk2) (bucket (interval ?pk2) 1 now))]\<rparr>)"
    by (rule generate_eq) simp_all
  finally show ?thesis
    by (simp add: w)
qed

lemma bucket_nearest:
  assumes "0 < iv" and "iv < 9223372036854775808" and "i = 0 \<or> i = 1 \<or> i = 2"
  shows "bucket iv i now = word_of_int (Unix ((2 * now + iv) div (2 * iv) * iv + (i - 1) * iv))"
  using assms by (simp add: bucket_pos Round_pos)

lemma ex_buckets_more:
  "bucket 15000000000 1 (UnixTime 8 0) = 15"
  "bucket 15000000000 0 (UnixTime 37 0) = 15"
  "bucket 15000000000 1 (UnixTime 37 0) = 30"
  "bucket 15000000000 0 (UnixTime 39 0) = 30"
  "bucket 15000000000 1 (UnixTime 45 0) = 45"
  "bucket 15000000000 0 (UnixTime 23 0) = 15"
  "bucket 15000000000 1 (UnixTime 23 0) = 30"
  "bucket 15000000000 1 (UnixTime 38 0) = 45"
  "bucket 15000000000 1 (UnixTime 53 0) = 60"
  by (simp_all add: time_eval)

lemma ex_generate:
  "generate ex_pk 0 (UnixTime 37 0) = Some (ex_pk\<lparr>cnp := [13864454372939924539, 0, 0]\<rparr>)"
  "generate ex_pk 1 (UnixTime 37 0) = Some (ex_pk\<lparr>cnp := [0, 9689389432781337617, 0]\<rparr>)"
  "generate ex_pk 0 (UnixTime 39 0) = Some (ex_pk\<lparr>cnp := [9689389432781337617, 0, 0]\<rparr>)"
  by (simp_all add: generate_def ex_bucket_simps Second_def ex_buckets_more ex_token_15 ex_token_30)

lemma ex_tick:
  "tick ex_started (UnixTime 45 0) = Some ex_ticked"
  "tick ex_started (UnixTime 38 0) = Some ex_ticked"
  "tick ex_ticked (UnixTime 53 0) = Some ex_ticked2"
  by (simp_all add: tick_def Let_def generate_def ex_started_def ex_ticked_def ex_ticked2_def
        Second_def ex_buckets_more ex_token_45 ex_token_60)





subsection \<open>A credential against a running server\<close>






subsection \<open>What the client and the command line send\<close>

lemma SetHeader_value:
  "SetHeader c r8 r9 req (client_hKey c) = credential (current_slot (client_PassKey c)) r8 r9"
  by (simp add: SetHeader_def current_slot_def)

lemma Current_generate:
  assumes "interval pk \<noteq> 0" and "Secret pk (StringArg str) = (p, pk')"
    and "take 20 (secret pk') \<noteq> replicate 20 0"
  shows "Current pk str rnd r8 r9 t =
           (case generate pk' 0 t of
              None \<Rightarrow> None
            | Some c \<Rightarrow> Some (c, credential (current_slot c) r8 r9))"
  using assms by (simp add: Current_def Let_def current_slot_def split: option.split)

lemma ex_Current:
  "Current (Interval PassKey0 (Some (15 * Second))) ''PASSKEYXXBASE32XXSECRETXXEXAMPLE'' rnd r8 r9
     (UnixTime 37 0) =
   Some (ex_pk\<lparr>cnp := [13864454372939924539, 0, 0]\<rparr>, credential 13864454372939924539 r8 r9)"
proof -
  have i: "Interval PassKey0 (Some (15 * Second)) = PassKey0\<lparr>interval := 15 * Second\<rparr>"
    by (simp add: Interval_def Second_def)
  have s: "Secret (PassKey0\<lparr>interval := 15 * Second\<rparr>) (StringArg ''PASSKEYXXBASE32XXSECRETXXEXAMPLE'') =
             (Receiver, ex_pk)"
    by (simp add: Secret_def ex_secret_decode)
       (simp add: PassKey0_def ex_pk_def ex_secret_def copy_def replicate_numeral)
  show ?thesis
    unfolding i
    by (subst Current_generate[OF _ s])
       (simp_all add: Second_def ex_bucket_simps ex_secret_nonzero ex_generate current_slot_def)
qed

section \<open>Claims\<close>

text \<open>
  Claim C1. For every 20-byte secret, interval, slot index in \<open>{0, 1, 2}\<close> and clock
  reading, \<open>generate\<close> returns without a panic, and the value it stores in the slot is the
  one the specification describes: with \<open>digest\<close> the HMAC-SHA1 under the secret of the
  eight little-endian bytes of the time bucket, the little-endian unsigned 64-bit integer
  read from the eight digest bytes starting at index \<open>((digest[19] & 0xF) / 2) + 1\<close>.
\<close>

theorem C1_generate_derives:
  assumes "wf pk" and "i = 0 \<or> i = 1 \<or> i = 2"
  shows "generate pk i now =
           Some (pk\<lparr>cnp := (cnp pk)[nat i :=
                    of_nat (derive_spec (secret pk) (bucket (interval pk) i now))]\<rparr>)"
  using assms by (intro generate_eq) (simp_all add: wf_def)

theorem C1_generate_derives_witness:
  "wf ex_pk \<and>
   generate ex_pk 0 (UnixTime 37 0) =
     Some (ex_pk\<lparr>cnp := [of_nat (derive_spec ex_secret 15), 0, 0]\<rparr>)"
  using C1_generate_derives[of ex_pk 0 "UnixTime 37 0"]
  by (simp add: ex_bucket_simps time_eval)

text \<open>
  Claim C2 says that the hashed time bucket is \<open>now\<close> rounded down to the interval
  boundary plus \<open>(slotOffset - 1)\<close> intervals. The code rounds to the nearest boundary:
  with an interval of fifteen seconds, eight seconds after a boundary slot index 1 hashes
  the bucket 15, where rounding down gives 0.
\<close>

theorem C2_bucket_counterexample:
  "bucket (15 * Second) 1 (UnixTime 8 0) = 15 \<and>
   bucket_spec (15 * Second) 1 (UnixTime 8 0) = 0 \<and>
   bucket (15 * Second) 1 (UnixTime 8 0) \<noteq> bucket_spec (15 * Second) 1 (UnixTime 8 0)"
  by (simp add: time_eval bucket_spec_def)

text \<open>
  Claim C2, amended. For every slot index \<open>i\<close> in \<open>{0, 1, 2}\<close>, positive interval and clock
  reading \<open>now\<close>, the time bucket hashed by \<open>generate\<close> is the Unix time of \<open>now\<close> rounded
  to the nearest interval boundary (a tie rounds up) plus \<open>(i - 1)\<close> intervals, and the
  token of that bucket is stored in \<open>cnp[i]\<close>.
\<close>

theorem C2_bucket_nearest:
  assumes "0 < interval pk" and "interval pk < 9223372036854775808"
    and "length (cnp pk) = 3" and "i = 0 \<or> i = 1 \<or> i = 2"
  shows "bucket (interval pk) i now =
           word_of_int (Unix ((2 * now + interval pk) div (2 * interval pk) * interval pk
                              + (i - 1) * interval pk)) \<and>
         (\<exists>pk'. generate pk i now = Some pk' \<and>
                Some (cnp pk' ! nat i) = token (secret pk) (bucket (interval pk) i now))"
  using assms generate_eq[of pk i now]
  by (auto simp add: bucket_nearest token_derive_spec)

theorem C2_bucket_nearest_witness:
  "0 < interval ex_pk \<and> interval ex_pk < 9223372036854775808 \<and> length (cnp ex_pk) = 3 \<and>
   bucket (interval ex_pk) 0 (UnixTime 37 0) = 15 \<and>
   generate ex_pk 0 (UnixTime 37 0) = Some (ex_pk\<lparr>cnp := [13864454372939924539, 0, 0]\<rparr>) \<and>
   token ex_secret 15 = Some 13864454372939924539"
  using C2_bucket_nearest[of ex_pk 0 "UnixTime 37 0"]
  by (simp add: ex_bucket_simps Second_def ex_buckets_more ex_generate ex_token_15)

text \<open>
  Claim C3 says that a firing of the ticker moves current to previous and next to current,
  and derives the next slot for the bucket one interval ahead of the firing. The two moves
  hold; the bucket does not: the example server, started on the boundary 30, fires at 45 and
  stores the token of the bucket 45, not the one of the bucket 60.
\<close>

theorem C3_tick_counterexample:
  "Start ex_pk [] (UnixTime 30 0) (UnixTime 30 0) = Some ex_started \<and>
   tick ex_started (UnixTime 45 0) = Some ex_ticked \<and>
   previous_slot ex_ticked = current_slot ex_started \<and>
   current_slot ex_ticked = next_slot ex_started \<and>
   bucket_spec (interval ex_started) 2 (UnixTime 45 0) = 60 \<and>
   Some (next_slot ex_ticked) \<noteq> token (secret ex_started) 60"
  by (simp add: ex_Start ex_tick)
     (simp add: ex_started_def ex_ticked_def previous_slot_def current_slot_def next_slot_def
        bucket_spec_def time_eval ex_token_60)

text \<open>
  Claim C3, amended. In every running state (a window of three slots, a positive
  interval), one firing of the ticker returns, the previous slot after it equals the
  current slot before it, the current slot after it equals the next slot before it, and
  the next slot is freshly derived for the bucket of the firing time rounded to the
  nearest interval boundary; secret and interval are unchanged.
\<close>

theorem C3_tick_rotates:
  assumes "length (cnp pk) = 3" and "0 < interval pk" and "interval pk < 9223372036854775808"
  shows "\<exists>pk'. tick pk now = Some pk' \<and>
           previous_slot pk' = current_slot pk \<and>
           current_slot pk' = next_slot pk \<and>
           next_slot pk' =
             token_at (secret pk) ((2 * now + interval pk) div (2 * interval pk) * interval pk) \<and>
           secret pk' = secret pk \<and> interval pk' = interval pk"
  using assms tick_eq[of pk now] bucket_nearest[of "interval pk" 1 now]
  by (simp add: previous_slot_def current_slot_def next_slot_def token_at_def)

theorem C3_tick_rotates_witness:
  "length (cnp ex_started) = 3 \<and> 0 < interval ex_started \<and>
   interval ex_started < 9223372036854775808 \<and>
   tick ex_started (UnixTime 45 0) = Some ex_ticked \<and>
   previous_slot ex_ticked = current_slot ex_started \<and>
   current_slot ex_ticked = next_slot ex_started \<and>
   next_slot ex_ticked = token_at (secret ex_started) (UnixTime 45 0)"
  using C3_tick_rotates[of ex_started "UnixTime 45 0"]
  by (simp add: ex_tick)
     (simp add: ex_started_def ex_ticked_def Second_def UnixTime_def unixToInternal_def
        previous_slot_def current_slot_def next_slot_def)

text \<open>
  Claim C4. For every request, the middleware answers 400 exactly when the header value
  fails base32 decoding or decodes to a length other than 10 bytes; otherwise it calls the
  downstream handler exactly when the little-endian 64-bit code in the first eight decoded
  bytes equals the previous, the current or the next slot, and answers 401 exactly when it
  equals none of them.
\<close>

theorem C4_IsValid_outcomes:
  "(IsValid srv r = StatusBadRequest \<longleftrightarrow>
      (\<exists>e. DecodeString (r (server_hKey (default_hKey srv))) = Inl e) \<or>
      (\<exists>b. DecodeString (r (server_hKey (default_hKey srv))) = Inr b \<and> length b \<noteq> 10)) \<and>
   (\<forall>b. DecodeString (r (server_hKey (default_hKey srv))) = Inr b \<and> length b = 10 \<longrightarrow>
      (IsValid srv r = ServeHTTP \<longleftrightarrow>
         of_nat (le_nat (take 8 b)) \<in>
           {previous_slot (server_PassKey srv), current_slot (server_PassKey srv),
            next_slot (server_PassKey srv)}) \<and>
      (IsValid srv r = StatusUnauthorized \<longleftrightarrow>
         of_nat (le_nat (take 8 b)) \<notin>
           {previous_slot (server_PassKey srv), current_slot (server_PassKey srv),
            next_slot (server_PassKey srv)}))"
  using IsValid_malformed[of srv r] by (auto simp add: IsValid_decoded)

theorem C4_IsValid_outcomes_witness:
  "IsValid (server_with ex_started) (request_with ''AAAAAAAAAAAAAAA='') = StatusBadRequest \<and>
   IsValid (server_with ex_started) (request_with ''11111111111111111111111111111111'') = StatusBadRequest \<and>
   IsValid (server_with ex_started) (request_with ''AAAAAAAAAAAAAAAA'') = ServeHTTP \<and>
   IsValid (server_with ex_started) (request_with ''AEAAAAAAAAAAAAAA'') = StatusUnauthorized"
  using C4_IsValid_outcomes[of "server_with ex_started" "request_with ''AAAAAAAAAAAAAAA=''"]
    C4_IsValid_outcomes[of "server_with ex_started" "request_with ''11111111111111111111111111111111''"]
    C4_IsValid_outcomes[of "server_with ex_started" "request_with ''AAAAAAAAAAAAAAAA''"]
    C4_IsValid_outcomes[of "server_with ex_started" "request_with ''AEAAAAAAAAAAAAAA''"]
  by (simp add: request_with_token server_with_PassKey decode_examples ex_started_def
        current_slot_def next_slot_def previous_slot_def)

text \<open>
  Claim C5 says that after \<open>Start\<close> and before the first firing of the ticker the current
  and the next slot hold the codes derived for their buckets, which the specification
  gives as slot offset 1 (the interval of \<open>now\<close>) and slot offset 2 (one interval ahead),
  while the previous slot holds zero. The example server started on the boundary 30 holds
  zero in the previous slot, but its current slot is the token of the bucket 15, not 30,
  and its next slot the token of the bucket 30, not 45.
\<close>

theorem C5_cold_start_counterexample:
  "Start ex_pk [] (UnixTime 30 0) (UnixTime 30 0) = Some ex_started \<and>
   previous_slot ex_started = 0 \<and>
   bucket_spec (interval ex_started) 1 (UnixTime 30 0) = 30 \<and>
   bucket_spec (interval ex_started) 2 (UnixTime 30 0) = 45 \<and>
   Some (current_slot ex_started) \<noteq>
     token (secret ex_started) (bucket_spec (interval ex_started) 1 (UnixTime 30 0)) \<and>
   Some (next_slot ex_started) \<noteq>
     token (secret ex_started) (bucket_spec (interval ex_started) 2 (UnixTime 30 0))"
  by (simp add: ex_Start)
     (simp add: ex_started_def current_slot_def next_slot_def previous_slot_def bucket_spec_def
        time_eval ex_token_30 ex_token_45)

text \<open>
  Claim C5, amended. For every secret and every interval that is not negative, \<open>Start\<close> on a
  fresh PassKey returns with the defaults applied (a zero interval becomes one minute, an
  all-zero secret the random one), and before the first firing of the ticker the current
  slot holds the code derived for the bucket one interval before the first clock reading
  rounded to the nearest interval boundary, the next slot holds the code derived for the
  bucket of the second clock reading rounded to the nearest interval boundary, and the
  previous slot holds zero.
\<close>

theorem C5_cold_start_nearest:
  assumes "cnp pk0 = [0, 0, 0]" and "0 \<le> interval pk0"
    and "interval pk0 < 9223372036854775808"
  shows "\<exists>pk. Start pk0 rnd t0 t1 = Some pk \<and>
           interval pk = (if interval pk0 = 0 then Minute else interval pk0) \<and>
           secret pk = (if take 20 (secret pk0) = replicate 20 0 then rnd else secret pk0) \<and>
           current_slot pk =
             token_at (secret pk)
               ((2 * t0 + interval pk) div (2 * interval pk) * interval pk - interval pk) \<and>
           next_slot pk =
             token_at (secret pk) ((2 * t1 + interval pk) div (2 * interval pk) * interval pk) \<and>
           previous_slot pk = 0"
proof -
  obtain pk where pk: "Start pk0 rnd t0 t1 = Some pk"
    and c: "Some (current_slot pk) = token (secret pk) (bucket (interval pk) 0 t0)"
    and n: "Some (next_slot pk) = token (secret pk) (bucket (interval pk) 1 t1)"
    and p: "previous_slot pk = 0"
    and i: "interval pk = (if interval pk0 = 0 then Minute else interval pk0)"
    and s: "secret pk = (if take 20 (secret pk0) = replicate 20 0 then rnd else secret pk0)"
    using Start_fresh[OF assms(1,2), of rnd t0 t1] by blast
  have pos: "0 < interval pk" and lt: "interval pk < 9223372036854775808"
    using assms(2,3) unfolding i by (simp_all add: Minute_def Second_def)
  have "current_slot pk =
          token_at (secret pk)
            ((2 * t0 + interval pk) div (2 * interval pk) * interval pk - interval pk)"
    using c bucket_nearest[OF pos lt, of 0 t0] by (simp add: token_derive_spec token_at_def)
  moreover have "next_slot pk =
          token_at (secret pk) ((2 * t1 + interval pk) div (2 * interval pk) * interval pk)"
    using n bucket_nearest[OF pos lt, of 1 t1] by (simp add: token_derive_spec token_at_def)
  ultimately show ?thesis
    using pk p i s by blast
qed

theorem C5_cold_start_nearest_witness:
  "cnp ex_pk = [0, 0, 0] \<and> 0 \<le> interval ex_pk \<and> interval ex_pk < 9223372036854775808 \<and>
   Start ex_pk [] (UnixTime 30 0) (UnixTime 30 0) = Some ex_started \<and>
   interval ex_started = 15 * Second \<and> secret ex_started = ex_secret \<and>
   current_slot ex_started = token_at ex_secret (UnixTime 15 0) \<and>
   next_slot ex_started = token_at ex_secret (UnixTime 30 0) \<and>
   previous_slot ex_started = 0"
  using C5_cold_start_nearest[of ex_pk "[]" "UnixTime 30 0" "UnixTime 30 0"]
  by (simp add: ex_Start ex_bucket_simps ex_secret_nonzero)
     (simp add: ex_bucket_simps ex_started_def Second_def UnixTime_def unixToInternal_def)




text \<open>
  Claim C7. For every 64-bit code and every value of the two padding bytes, decoding the
  credential (the base32 text of the eight little-endian bytes of the code followed by the
  padding) succeeds with exactly those ten bytes, and the little-endian integer read from
  the first eight of them is the original code.
\<close>

theorem C7_round_trip:
  "DecodeString (credential code r8 r9) = Inr (PutUint64 code @ [r8, r9]) \<and>
   length (PutUint64 code @ [r8, r9]) = 10 \<and>
   Uint64 (take 8 (PutUint64 code @ [r8, r9])) = Some code"
  by (simp add: DecodeString_credential Uint64_PutUint64 length_PutUint64)

theorem C7_round_trip_witness:
  "DecodeString (credential 1 0xAB 0xCD) = Inr [1, 0, 0, 0, 0, 0, 0, 0, 0xAB, 0xCD] \<and>
   Uint64 (take 8 [1, 0, 0, 0, 0, 0, 0, 0, 0xAB, 0xCD]) = Some 1"
  using C7_round_trip[of 1 "0xAB" "0xCD"] by (simp add: PutUint64_def)

text \<open>
  Claim C8. For every 20-byte digest, the truncation offset
  \<open>((digest[19] & 0xF) / 2) + 1\<close> lies in \<open>[1, 8]\<close>, the slice
  \<open>digest[offset : offset + 8]\<close> ends at index at most 16, and the slice expression does
  not panic and yields eight bytes of the digest.
\<close>

theorem C8_truncation_in_bounds:
  assumes "length digest = 20"
  shows "1 \<le> unat (nibble digest) \<and> unat (nibble digest) \<le> 8 \<and>
         unat (nibble digest + 8) \<le> 16 \<and>
         slice digest (unat (nibble digest)) (unat (nibble digest + 8)) =
           Some (take 8 (drop (unat (nibble digest)) digest)) \<and>
         length (take 8 (drop (unat (nibble digest)) digest)) = 8"
  using assms nibble_le[of digest] slice_nibble[OF assms]
  by (simp add: unat_nibble_8 unat_nibble)

theorem C8_truncation_in_bounds_witness:
  "length (replicate 19 0 @ [0xFF :: byte]) = 20 \<and>
   unat (nibble (replicate 19 0 @ [0xFF])) = 8 \<and>
   slice (replicate 19 0 @ [0xFF :: byte]) 8 16 = Some (replicate 8 0)"
  using C8_truncation_in_bounds[of "replicate 19 0 @ [0xFF]"]
  by (simp add: nibble_def nth_append slice_def)

text \<open>
  Claim C9. After \<open>Start\<close> on a fresh PassKey and before the first firing of the ticker,
  the previous slot holds 0 and the middleware compares the presented code against it like
  against the other slots: every request whose header value decodes to ten bytes of which
  the first eight are zero is passed to the downstream handler.
\<close>

theorem C9_cold_start_accepts_zero:
  assumes "cnp pk0 = [0, 0, 0]" and "Start pk0 rnd t0 t1 = Some pk"
    and "server_PassKey srv = pk"
    and "DecodeString (r (server_hKey (default_hKey srv))) = Inr b"
    and "length b = 10" and "take 8 b = replicate 8 0"
  shows "previous_slot pk = 0 \<and> IsValid srv r = ServeHTTP"
proof -
  have p: "previous_slot pk = 0"
    using assms(1,2) by (rule Start_previous)
  have "le_nat (take 8 b) = 0"
    by (simp add: assms(6) replicate_8)
  then show ?thesis
    using p assms(3) IsValid_decoded[where r=r and srv=srv and b=b, OF assms(4,5)] by simp
qed

theorem C9_cold_start_accepts_zero_witness:
  "cnp ex_pk = [0, 0, 0] \<and>
   Start ex_pk [] (UnixTime 30 0) (UnixTime 30 0) = Some ex_started \<and>
   DecodeString ''AAAAAAAAAAAAAAAA'' = Inr [0, 0, 0, 0, 0, 0, 0, 0, 0, 0] \<and>
   previous_slot ex_started = 0 \<and>
   IsValid (server_with ex_started) (request_with ''AAAAAAAAAAAAAAAA'') = ServeHTTP"
  using C9_cold_start_accepts_zero[of ex_pk "[]" "UnixTime 30 0" "UnixTime 30 0" ex_started
      "server_with ex_started" "request_with ''AAAAAAAAAAAAAAAA''" "[0, 0, 0, 0, 0, 0, 0, 0, 0, 0]"]
  by (simp add: ex_Start ex_bucket_simps server_with_PassKey request_with_token decode_examples
        replicate_8)

text \<open>
  Claim C10. \<open>Secret\<close> returns \<open>nil\<close> exactly when it is given a string of 32 characters
  whose base32 decoding fails. For a string of any other length and for an argument that
  is neither a string nor a \<open>[20]byte\<close> it leaves the PassKey unchanged and returns the
  receiver; for a \<open>[20]byte\<close> it copies the bytes into the secret and returns the
  receiver.
\<close>

theorem C10_Secret_returns:
  "(fst (Secret pk arg) = Nil \<longleftrightarrow>
      (\<exists>v e. arg = StringArg v \<and> length v = 32 \<and> DecodeString v = Inl e)) \<and>
   (\<forall>v. arg = StringArg v \<and> length v \<noteq> 32 \<longrightarrow> Secret pk arg = (Receiver, pk)) \<and>
   (arg = OtherArg \<longrightarrow> Secret pk arg = (Receiver, pk)) \<and>
   (\<forall>v. arg = Byte20Arg v \<and> length v = 20 \<and> length (secret pk) = 20 \<longrightarrow>
      Secret pk arg = (Receiver, pk\<lparr>secret := v\<rparr>))"
  by (cases arg) (auto simp add: Secret_def copy_20 split: sum.splits)

theorem C10_Secret_returns_witness:
  "Secret PassKey0 (StringArg ''11111111111111111111111111111111'') = (Nil, PassKey0) \<and>
   Secret PassKey0 (StringArg ''PASSKEYXXBASE32XXSECRETXXEXAMPLE'') \<noteq> (Nil, PassKey0) \<and>
   Secret PassKey0 (StringArg ''AAAAAAAAAAAAAAAA'') = (Receiver, PassKey0) \<and>
   Secret PassKey0 OtherArg = (Receiver, PassKey0) \<and>
   Secret PassKey0 (Byte20Arg ex_secret) = (Receiver, PassKey0\<lparr>secret := ex_secret\<rparr>)"
  using C10_Secret_returns[of PassKey0 "StringArg ''11111111111111111111111111111111''"]
    C10_Secret_returns[of PassKey0 "StringArg ''PASSKEYXXBASE32XXSECRETXXEXAMPLE''"]
    C10_Secret_returns[of PassKey0 "StringArg ''AAAAAAAAAAAAAAAA''"]
    C10_Secret_returns[of PassKey0 OtherArg]
    C10_Secret_returns[of PassKey0 "Byte20Arg ex_secret"]
  by (simp add: decode_examples ex_secret_decode Secret_def)
     (simp add: ex_secret_def PassKey0_def copy_def)

end
